theory Spec2Isabelle
  imports Complex_Main
begin

section \<open>Data\<close>

text \<open>
  A dataset is a two-dimensional array: a sequence of \<open>N\<close> points, each a coordinate
  vector; the index of a point in the sequence is its identity. Python integers are
  \<open>int\<close>; a distance is a real number. A Python set of indices is an \<open>int set\<close>.
\<close>

type_synonym point = "real list"
type_synonym dataset = "point list"
type_synonym matrix = "real list list"

text \<open>
  The exceptions of the code: \<open>IndexError\<close> from indexing an array, \<open>ValueError\<close> from
  the distance primitive when it refuses its input.
\<close>

datatype error = IndexError | ValueError

text \<open>
  What a caller of \<open>cdbscan\<close> receives: Python's \<open>None\<close>, or a sequence of integer
  labels (the value the tests hand to \<open>adjusted_rand_score\<close>).
\<close>

datatype clusters = PyNone | Labels "int list"

section \<open>The distance matrix\<close>

text \<open>
  \<open>pairwise_distances(X=dataset, metric="euclidean")\<close> is a library primitive, not code of
  this repository. In \<open>compute_density_reachable_points\<close> below it is a parameter, a
  function from the dataset to an exception or a matrix: the matrix the code goes on with
  is whatever the primitive returned, rounding of floating-point arithmetic included.

  What the primitive promises about a matrix it returns for \<open>N\<close> points is its shape,
  \<open>N\<close> rows of \<open>N\<close> entries.
\<close>

definition square :: "nat \<Rightarrow> matrix \<Rightarrow> bool" where
  "square n d \<longleftrightarrow> length d = n \<and> list_all (\<lambda>row. length row = n) d"

text \<open>
  One primitive, used for the concrete inputs below: the Euclidean distances computed
  exactly, over the reals. It refuses an array with no row and an array with no column,
  as the library does.
\<close>

definition euclidean :: "point \<Rightarrow> point \<Rightarrow> real" where
  "euclidean x y = sqrt (sum_list (map (\<lambda>(a, b). (a - b)\<^sup>2) (zip x y)))"

definition euclidean_distances :: "dataset \<Rightarrow> error + matrix" where
  "euclidean_distances X =
     (if X = [] \<or> [] \<in> set X then Inl ValueError
      else Inr (map (\<lambda>x. map (\<lambda>y. euclidean x y) X) X))"

text \<open>
  Indexing an axis of length \<open>n\<close> with a Python integer: a negative index counts from the
  end, and an index outside \<open>-n .. n-1\<close> raises \<open>IndexError\<close>.
\<close>

definition axis_index :: "nat \<Rightarrow> int \<Rightarrow> error + nat" where
  "axis_index n k =
     (if 0 \<le> k \<and> k < int n then Inr (nat k)
      else if - int n \<le> k \<and> k < 0 then Inr (nat (k + int n))
      else Inl IndexError)"

text \<open>\<open>a[r, c]\<close> on a two-dimensional array.\<close>

definition getitem :: "matrix \<Rightarrow> int \<Rightarrow> int \<Rightarrow> error + real" where
  "getitem a r c =
     (case axis_index (length a) r of
        Inl e \<Rightarrow> Inl e
      | Inr r' \<Rightarrow>
          (case axis_index (length (a ! r')) c of
             Inl e \<Rightarrow> Inl e
           | Inr c' \<Rightarrow> Inr (a ! r' ! c')))"

section \<open>Density-reachable points\<close>

text \<open>
  A generator with a condition that may raise: the elements are tested from left to
  right, and the first exception ends the evaluation.
\<close>

fun filter_raising :: "('a \<Rightarrow> error + bool) \<Rightarrow> 'a list \<Rightarrow> error + 'a list" where
  "filter_raising c [] = Inr []"
| "filter_raising c (x # xs) =
     (case c x of
        Inl e \<Rightarrow> Inl e
      | Inr b \<Rightarrow>
          (case filter_raising c xs of
             Inl e \<Rightarrow> Inl e
           | Inr ys \<Rightarrow> Inr (if b then x # ys else ys)))"

text \<open>A list comprehension whose element expression may raise.\<close>

fun map_raising :: "('a \<Rightarrow> error + 'b) \<Rightarrow> 'a list \<Rightarrow> error + 'b list" where
  "map_raising f [] = Inr []"
| "map_raising f (x # xs) =
     (case f x of
        Inl e \<Rightarrow> Inl e
      | Inr y \<Rightarrow>
          (case map_raising f xs of
             Inl e \<Rightarrow> Inl e
           | Inr ys \<Rightarrow> Inr (y # ys)))"

text \<open>
  The inner function \<open>compute_neighbors(element_index)\<close>. It closes over
  \<open>element_count\<close>, \<open>distances\<close>, \<open>point_index\<close> and \<open>maximum_distance\<close>, which are
  parameters here. As in the source, the row of the matrix it reads is \<open>point_index\<close>;
  \<open>element_index\<close> does not occur in its body.
\<close>

definition compute_neighbors ::
  "nat \<Rightarrow> matrix \<Rightarrow> int \<Rightarrow> real \<Rightarrow> int \<Rightarrow> error + int list" where
  "compute_neighbors element_count distances point_index maximum_distance element_index =
     filter_raising
       (\<lambda>i. case getitem distances point_index i of
               Inl e \<Rightarrow> Inl e
             | Inr d \<Rightarrow> Inr (d \<le> maximum_distance))
       (map int [0..<element_count])"

text \<open>
  The \<open>while new_points_to_explore\<close> loop, on the state
  \<open>(points_already_visited, density_reachable)\<close>. One call is one iteration; the result
  is \<open>None\<close> when the loop never ends, \<open>Some (Inl e)\<close> when an iteration raises \<open>e\<close>, and
  \<open>Some (Inr s)\<close> when the loop ends with \<open>density_reachable = s\<close>.

  Python does not fix the order in which \<open>for i in density_reachable\<close> enumerates a set;
  \<open>set_order\<close> is that enumeration.
\<close>

partial_function (option) explore ::
  "(int set \<Rightarrow> int list) \<Rightarrow> (int \<Rightarrow> error + int list) \<Rightarrow> int set \<Rightarrow> int set
     \<Rightarrow> (error + int set) option" where
  "explore set_order neighbors points_already_visited density_reachable =
     (let old_reachable_point_count = card density_reachable in
      case map_raising neighbors
             (filter (\<lambda>i. i \<notin> points_already_visited) (set_order density_reachable)) of
        Inl e \<Rightarrow> Some (Inl e)
      | Inr reachable_neighborhoods \<Rightarrow>
          (let visited = points_already_visited \<union> density_reachable;
               reachable = fold (\<lambda>neighborhood s. s \<union> set neighborhood)
                             reachable_neighborhoods density_reachable
           in if old_reachable_point_count < card reachable
              then explore set_order neighbors visited reachable
              else Some (Inr reachable)))"

text \<open>
  The function. Its first parameter is the primitive \<open>pairwise_distances\<close>; an exception
  of the primitive ends the call.
\<close>

definition compute_density_reachable_points ::
  "(dataset \<Rightarrow> error + matrix) \<Rightarrow> (int set \<Rightarrow> int list) \<Rightarrow> dataset \<Rightarrow> int \<Rightarrow> real
     \<Rightarrow> (error + int set) option" where
  "compute_density_reachable_points pairwise_distances set_order dataset point_index
       maximum_distance =
     (let element_count = length dataset in
      case pairwise_distances dataset of
        Inl e \<Rightarrow> Some (Inl e)
      | Inr distances \<Rightarrow>
          (let neighbors =
                 compute_neighbors element_count distances point_index maximum_distance
           in case neighbors point_index of
                Inl e \<Rightarrow> Some (Inl e)
              | Inr neighborhood \<Rightarrow> explore set_order neighbors {} (set neighborhood)))"

section \<open>The clustering operation\<close>

text \<open>
  \<open>cdbscan(dataset, epsilon, minpts, mustlink, cannotlink)\<close>: after its docstring the body
  is the single statement \<open>return None\<close>. An absent constraint argument is \<open>None\<close>.
\<close>

definition cdbscan ::
  "dataset \<Rightarrow> real \<Rightarrow> int \<Rightarrow> (int \<times> int) set option \<Rightarrow> (int \<times> int) set option
     \<Rightarrow> error + clusters" where
  "cdbscan dataset epsilon minpts mustlink cannotlink = Inr PyNone"

section \<open>The density-reachable set of the specification\<close>

text \<open>
  These two definitions follow the words of the specification, not the code.
  \<open>Neighborhood(p, r)\<close> is the set of point indices whose distance to \<open>p\<close> is at most \<open>r\<close>.
  \<open>DensityReachableSet(p, r)\<close> is the closure of repeatedly unioning \<open>Neighborhood(q, r)\<close>
  for every \<open>q\<close> already in the set, starting from \<open>{p} \<union> Neighborhood(p, r)\<close>: the least
  set closed under the three rules.
\<close>

definition Neighborhood :: "dataset \<Rightarrow> int \<Rightarrow> real \<Rightarrow> int set" where
  "Neighborhood X p r =
     {i. 0 \<le> i \<and> i < int (length X) \<and> euclidean (X ! nat p) (X ! nat i) \<le> r}"

inductive_set DensityReachableSet :: "dataset \<Rightarrow> int \<Rightarrow> real \<Rightarrow> int set"
  for X :: dataset and p :: int and r :: real where
  seed: "p \<in> DensityReachableSet X p r"
| start: "i \<in> Neighborhood X p r \<Longrightarrow> i \<in> DensityReachableSet X p r"
| step: "q \<in> DensityReachableSet X p r \<Longrightarrow> i \<in> Neighborhood X q r
           \<Longrightarrow> i \<in> DensityReachableSet X p r"

section \<open>Auxiliary lemmas\<close>

subsection \<open>Indexing the distance matrix\<close>

lemma axis_index_in_range:
  "0 \<le> k \<Longrightarrow> k < int n \<Longrightarrow> axis_index n k = Inr (nat k)"
  by (simp add: axis_index_def)

lemma axis_index_negative:
  "- int n \<le> k \<Longrightarrow> k < 0 \<Longrightarrow> axis_index n k = Inr (nat (k + int n))"
  by (simp add: axis_index_def)

lemma axis_index_outside:
  "k < - int n \<or> int n \<le> k \<Longrightarrow> axis_index n k = Inl IndexError"
  by (auto simp add: axis_index_def)

lemma axis_index_bound: "axis_index n k = Inr j \<Longrightarrow> j < n"
  by (auto simp add: axis_index_def split: if_splits)

lemma square_row: "square n d \<Longrightarrow> row < n \<Longrightarrow> length (d ! row) = n"
  by (simp add: square_def list_all_length)

lemma getitem_square:
  assumes "square n d" and "axis_index n p = Inr row" and "i < n"
  shows "getitem d p (int i) = Inr (d ! row ! i)"
proof -
  have "row < n" using assms(2) by (rule axis_index_bound)
  then have "length (d ! row) = n" using assms(1) by (simp add: square_row)
  moreover have "length d = n" using assms(1) by (simp add: square_def)
  ultimately show ?thesis using assms(2,3)
    by (simp add: getitem_def axis_index_in_range)
qed

lemma getitem_outside:
  assumes "square n d" and "p < - int n \<or> int n \<le> p"
  shows "getitem d p c = Inl IndexError"
proof -
  have "length d = n" using assms(1) by (simp add: square_def)
  then show ?thesis using assms(2) by (simp add: getitem_def axis_index_outside)
qed

subsection \<open>Comprehensions and the loop\<close>

lemma filter_raising_total:
  "(\<And>x. x \<in> set xs \<Longrightarrow> c x = Inr (P x)) \<Longrightarrow> filter_raising c xs = Inr (filter P xs)"
  by (induction xs) auto

lemma filter_raising_subset:
  "filter_raising c xs = Inr ys \<Longrightarrow> set ys \<subseteq> set xs"
  by (induction xs arbitrary: ys) (auto split: sum.splits if_splits)

lemma filter_raising_fails:
  "xs \<noteq> [] \<Longrightarrow> (\<And>x. x \<in> set xs \<Longrightarrow> c x = Inl e) \<Longrightarrow> filter_raising c xs = Inl e"
  by (cases xs) auto

lemma map_raising_Inr:
  "map_raising f xs = Inr ys \<Longrightarrow> y \<in> set ys \<Longrightarrow> \<exists>x. f x = Inr y"
  by (induction xs arbitrary: ys) (auto split: sum.splits)

lemma map_raising_const:
  "(\<And>x. f x = Inr v) \<Longrightarrow> map_raising f xs = Inr (replicate (length xs) v)"
  by (induction xs) auto

lemma fold_update:
  "fold (\<lambda>neighborhood s. s \<union> set neighborhood) ns s = s \<union> \<Union> (set ` set ns)"
  by (induction ns arbitrary: s) auto

lemma explore_terminates:
  assumes bound: "\<And>i ns. neighbors i = Inr ns \<Longrightarrow> set ns \<subseteq> B" and fin: "finite B"
  shows "\<exists>res. explore set_order neighbors visited reachable = Some res"
proof (induction "card (B - reachable)" arbitrary: visited reachable rule: less_induct)
  case less
  show ?case
  proof (cases "map_raising neighbors (filter (\<lambda>i. i \<notin> visited) (set_order reachable))")
    case (Inl e)
    then show ?thesis by (subst explore.simps) simp
  next
    case (Inr nbhds)
    let ?r' = "fold (\<lambda>neighborhood s. s \<union> set neighborhood) nbhds reachable"
    have r': "?r' = reachable \<union> \<Union> (set ` set nbhds)" by (rule fold_update)
    have new: "?r' - reachable \<subseteq> B"
      using map_raising_Inr [OF Inr] bound unfolding r' by blast
    show ?thesis
    proof (cases "card reachable < card ?r'")
      case True
      then have "finite ?r'" by (metis card.infinite not_less_zero)
      moreover have "reachable \<subseteq> ?r'" unfolding r' by blast
      ultimately have "reachable \<subset> ?r'" using True by auto
      then obtain x where x: "x \<in> ?r'" "x \<notin> reachable" by blast
      with new have "x \<in> B" by blast
      with x \<open>reachable \<subseteq> ?r'\<close> have "B - ?r' \<subset> B - reachable" by blast
      then have "card (B - ?r') < card (B - reachable)"
        using fin by (simp add: psubset_card_mono)
      from less [OF this] obtain res
        where "explore set_order neighbors (visited \<union> reachable) ?r' = Some res" by blast
      then show ?thesis using Inr True by (subst explore.simps) simp
    next
      case False
      then show ?thesis using Inr by (subst explore.simps) simp
    qed
  qed
qed

subsection \<open>The neighbours of the point\<close>

lemma compute_neighbors_row:
  assumes "square n d" and "axis_index n p = Inr row"
  shows "compute_neighbors n d p r e =
           Inr (filter (\<lambda>i. d ! row ! nat i \<le> r) (map int [0..<n]))"
  unfolding compute_neighbors_def
  by (rule filter_raising_total) (auto simp add: getitem_square [OF assms])

lemma compute_neighbors_bound:
  "compute_neighbors n d p r e = Inr ns \<Longrightarrow> set ns \<subseteq> int ` {0..<n}"
  unfolding compute_neighbors_def by (drule filter_raising_subset) simp

lemma compute_neighbors_ignores_element_index:
  "compute_neighbors n d p r e = compute_neighbors n d p r e'"
  by (simp add: compute_neighbors_def)

lemma explore_constant:
  assumes "\<And>i. neighbors i = Inr ns"
  shows "explore set_order neighbors visited (set ns) = Some (Inr (set ns))"
proof -
  let ?todo = "filter (\<lambda>i. i \<notin> visited) (set_order (set ns))"
  have "map_raising neighbors ?todo = Inr (replicate (length ?todo) ns)"
    using assms by (rule map_raising_const)
  moreover have "fold (\<lambda>neighborhood s. s \<union> set neighborhood)
                   (replicate (length ?todo) ns) (set ns) = set ns"
    unfolding fold_update by (cases "length ?todo = 0") simp_all
  ultimately show ?thesis by (subst explore.simps) simp
qed

lemma compute_density_reachable_points_eq:
  "compute_density_reachable_points primitive set_order X p r =
     (case primitive X of
        Inl e \<Rightarrow> Some (Inl e)
      | Inr d \<Rightarrow>
          (case compute_neighbors (length X) d p r p of
             Inl e \<Rightarrow> Some (Inl e)
           | Inr ns \<Rightarrow> Some (Inr (set ns))))"
proof (cases "primitive X")
  case (Inl e)
  then show ?thesis by (simp add: compute_density_reachable_points_def)
next
  case d: (Inr d)
  show ?thesis
  proof (cases "compute_neighbors (length X) d p r p")
    case (Inl e)
    then show ?thesis using d by (simp add: compute_density_reachable_points_def)
  next
    case (Inr ns)
    have "\<And>i. compute_neighbors (length X) d p r i = Inr ns"
      using Inr by (simp add: compute_neighbors_def)
    from explore_constant [of _ ns, OF this] Inr d show ?thesis
      by (simp add: compute_density_reachable_points_def)
  qed
qed

lemma range_indices: "int ` {0..<n} = {i. 0 \<le> i \<and> i < int n}"
proof -
  have "\<And>i. 0 \<le> i \<Longrightarrow> i < int n \<Longrightarrow> i \<in> int ` {0..<n}"
    by (metis atLeastLessThan_iff image_eqI nat_less_iff nat_0_le zero_le)
  then show ?thesis by auto
qed

lemma set_filter_range:
  "set (filter P (map int [0..<n])) = {i. 0 \<le> i \<and> i < int n \<and> P i}"
proof -
  have "set (filter P (map int [0..<n])) = {i \<in> int ` {0..<n}. P i}" by simp
  then show ?thesis unfolding range_indices by simp
qed

lemma compute_density_reachable_points_in_range:
  assumes "primitive X = Inr d" and "square (length X) d"
    and "0 \<le> p" and "p < int (length X)"
  shows "compute_density_reachable_points primitive set_order X p r =
           Some (Inr {i. 0 \<le> i \<and> i < int (length X) \<and> d ! nat p ! nat i \<le> r})"
proof -
  have "axis_index (length X) p = Inr (nat p)"
    using assms(3,4) by (rule axis_index_in_range)
  from compute_neighbors_row [OF assms(2) this] assms(1) show ?thesis
    by (simp only: compute_density_reachable_points_eq set_filter_range sum.case)
qed

lemma compute_density_reachable_points_bounded:
  assumes "compute_density_reachable_points primitive set_order X p r = Some (Inr s)"
  shows "s \<subseteq> {i. 0 \<le> i \<and> i < int (length X)} \<and> card s \<le> length X"
proof -
  obtain d ns where ns: "compute_neighbors (length X) d p r p = Inr ns" and s: "s = set ns"
    using assms by (auto simp add: compute_density_reachable_points_eq split: sum.splits)
  have sub: "s \<subseteq> int ` {0..<length X}" using compute_neighbors_bound [OF ns] s by simp
  then have "card s \<le> card (int ` {0..<length X})" by (intro card_mono) simp_all
  also have "\<dots> \<le> length X"
    by (metis card_image_le card_atLeastLessThan diff_zero finite_atLeastLessThan)
  finally show ?thesis using sub by (simp add: range_indices)
qed

subsection \<open>An index outside the dataset\<close>

lemma compute_neighbors_IndexError:
  assumes "square n d" and "0 < n" and "p < - int n \<or> int n \<le> p"
  shows "compute_neighbors n d p r e = Inl IndexError"
  unfolding compute_neighbors_def
  by (rule filter_raising_fails)
     (use assms in \<open>simp_all add: getitem_outside [OF assms(1,3)]\<close>)

lemma compute_density_reachable_points_IndexError:
  assumes "primitive X = Inr d" and "square (length X) d" and "X \<noteq> []"
    and "p < - int (length X) \<or> int (length X) \<le> p"
  shows "compute_density_reachable_points primitive set_order X p r = Some (Inl IndexError)"
  using assms
  by (simp add: compute_density_reachable_points_eq compute_neighbors_IndexError)

lemma compute_density_reachable_points_negative:
  assumes "primitive X = Inr d" and "square (length X) d"
    and "- int (length X) \<le> p" and "p < 0"
  shows "compute_density_reachable_points primitive set_order X p r =
           Some (Inr {i. 0 \<le> i \<and> i < int (length X)
                        \<and> d ! nat (p + int (length X)) ! nat i \<le> r})"
proof -
  have "axis_index (length X) p = Inr (nat (p + int (length X)))"
    using assms(3,4) by (rule axis_index_negative)
  from compute_neighbors_row [OF assms(2) this] assms(1) show ?thesis
    by (simp only: compute_density_reachable_points_eq set_filter_range sum.case)
qed

lemma compute_density_reachable_points_refused:
  "primitive X = Inl e \<Longrightarrow>
     compute_density_reachable_points primitive set_order X p r = Some (Inl e)"
  by (simp add: compute_density_reachable_points_eq)

subsection \<open>The exact Euclidean distances\<close>

lemma euclidean_self: "euclidean x x = 0"
proof -
  have "sum_list (map (\<lambda>(a, b). (a - b)\<^sup>2) (zip x x)) = (0::real)"
    by (induction x) auto
  then show ?thesis by (simp add: euclidean_def)
qed

lemma euclidean_distances_refuses:
  "X = [] \<or> [] \<in> set X \<Longrightarrow> euclidean_distances X = Inl ValueError"
  by (simp add: euclidean_distances_def)

lemma euclidean_distances_accepts:
  "X \<noteq> [] \<Longrightarrow> [] \<notin> set X \<Longrightarrow>
     euclidean_distances X = Inr (map (\<lambda>x. map (\<lambda>y. euclidean x y) X) X)"
  by (simp add: euclidean_distances_def)

lemma euclidean_distances_square:
  "euclidean_distances X = Inr d \<Longrightarrow> square (length X) d"
  by (auto simp add: euclidean_distances_def square_def list_all_iff split: if_splits)

lemma euclidean_distances_entry:
  "euclidean_distances X = Inr d \<Longrightarrow> i < length X \<Longrightarrow> j < length X \<Longrightarrow>
     d ! i ! j = euclidean (X ! i) (X ! j)"
  by (auto simp add: euclidean_distances_def split: if_splits)

lemma euclidean_distances_diagonal:
  "euclidean_distances X = Inr d \<Longrightarrow> i < length X \<Longrightarrow> d ! i ! i = 0"
  by (simp add: euclidean_distances_entry euclidean_self)

lemma sqrt_le_iff_square: "0 \<le> r \<Longrightarrow> sqrt x \<le> r \<longleftrightarrow> x \<le> r\<^sup>2"
  by (metis real_sqrt_le_iff real_sqrt_abs abs_of_nonneg)

lemma euclidean_distances_ValueError:
  "X = [] \<or> [] \<in> set X \<Longrightarrow>
     compute_density_reachable_points euclidean_distances set_order X p r
       = Some (Inl ValueError)"
  by (simp add: compute_density_reachable_points_eq euclidean_distances_refuses)

lemma euclidean_distances_contains_point:
  assumes "X \<noteq> []" and "[] \<notin> set X" and "0 \<le> p" and "p < int (length X)"
    and "0 < epsilon"
  shows "\<exists>s. compute_density_reachable_points euclidean_distances set_order X p epsilon
               = Some (Inr s) \<and> p \<in> s"
proof -
  obtain d where d: "euclidean_distances X = Inr d"
    using assms(1,2) by (simp add: euclidean_distances_accepts)
  have "d ! nat p ! nat p = 0"
    using assms(3,4) by (simp add: euclidean_distances_diagonal [OF d] nat_less_iff)
  then show ?thesis
    using assms(3-5)
      compute_density_reachable_points_in_range
        [where primitive = euclidean_distances and set_order = set_order and r = epsilon,
         OF d euclidean_distances_square [OF d] assms(3,4)]
    by simp
qed

subsection \<open>The closure of the specification\<close>

lemma Neighborhood_indices: "i \<in> Neighborhood X q r \<Longrightarrow> 0 \<le> i \<and> i < int (length X)"
  by (simp add: Neighborhood_def)

lemma DensityReachableSet_indices:
  "i \<in> DensityReachableSet X p r \<Longrightarrow> i = p \<or> (0 \<le> i \<and> i < int (length X))"
  by (induction rule: DensityReachableSet.induct) (auto dest: Neighborhood_indices)

lemma result_within_closure:
  assumes "0 \<le> p" and "p < int (length X)"
    and "compute_density_reachable_points euclidean_distances set_order X p r = Some (Inr s)"
  shows "s = Neighborhood X p r" and "s \<subseteq> DensityReachableSet X p r"
proof -
  obtain d where d: "euclidean_distances X = Inr d"
    using assms(3) by (auto simp add: compute_density_reachable_points_eq split: sum.splits)
  have "\<And>i. 0 \<le> i \<and> i < int (length X) \<Longrightarrow>
          d ! nat p ! nat i = euclidean (X ! nat p) (X ! nat i)"
    using assms(1,2) by (simp add: euclidean_distances_entry [OF d] nat_less_iff)
  then have "{i. 0 \<le> i \<and> i < int (length X) \<and> d ! nat p ! nat i \<le> r} = Neighborhood X p r"
    unfolding Neighborhood_def by auto
  then show "s = Neighborhood X p r"
    using assms(3)
      compute_density_reachable_points_in_range
        [where primitive = euclidean_distances and set_order = set_order and r = r,
         OF d euclidean_distances_square [OF d] assms(1,2)]
    by simp
  then show "s \<subseteq> DensityReachableSet X p r"
    by (auto intro: DensityReachableSet.start)
qed

section \<open>Properties\<close>

subsection \<open>\<open>compute_density_reachable_points\<close>\<close>

text \<open>
  C1: for every dataset, valid point index \<open>p\<close> and radius \<open>epsilon > 0\<close>,
  \<open>compute_density_reachable_points\<close> returns the closure obtained by repeatedly unioning
  the neighborhoods of the points already in the set, starting from
  \<open>{p} \<union> Neighborhood(p, epsilon)\<close>. The code does not: on the three points \<open>(0,0)\<close>,
  \<open>(2,0)\<close>, \<open>(4,0)\<close> with \<open>p = 0\<close> and radius \<open>2\<close> it returns \<open>{0, 1}\<close>, whatever the order
  of enumeration, while the closure is \<open>{0, 1, 2}\<close> (point \<open>2\<close> is within the radius of
  point \<open>1\<close>). The distances of these points are \<open>0\<close>, \<open>2\<close> and \<open>4\<close>, which floating-point
  arithmetic computes exactly.
\<close>

theorem closure_not_computed:
  "compute_density_reachable_points euclidean_distances set_order
     [[0, 0], [2, 0], [4, 0]] 0 2 = Some (Inr {0, 1})
   \<and> DensityReachableSet [[0, 0], [2, 0], [4, 0]] 0 2 = {0, 1, 2}"
proof
  let ?X = "[[0, 0], [2, 0], [4, 0]] :: dataset"
  let ?d = "map (\<lambda>x. map (\<lambda>y. euclidean x y) ?X) ?X"
  have d: "euclidean_distances ?X = Inr ?d" by (rule euclidean_distances_accepts) simp_all
  have "compute_density_reachable_points euclidean_distances set_order ?X 0 2
      = Some (Inr (set (filter (\<lambda>i. ?d ! nat 0 ! nat i \<le> 2) (map int [0..<length ?X]))))"
    unfolding set_filter_range
    by (rule compute_density_reachable_points_in_range
          [where primitive = euclidean_distances, OF d euclidean_distances_square [OF d]])
       simp_all
  also have "\<dots> = Some (Inr {0, 1})"
    by (simp add: euclidean_def sqrt_le_iff_square upt_rec)
  finally show "compute_density_reachable_points euclidean_distances set_order ?X 0 2
                  = Some (Inr {0, 1})" .
  have 1: "1 \<in> Neighborhood ?X 0 2"
    by (simp add: Neighborhood_def euclidean_def sqrt_le_iff_square)
  have 2: "2 \<in> Neighborhood ?X 1 2"
    by (simp add: Neighborhood_def euclidean_def sqrt_le_iff_square)
  have "1 \<in> DensityReachableSet ?X 0 2" using 1 by (rule DensityReachableSet.start)
  then have "2 \<in> DensityReachableSet ?X 0 2" using 2 by (rule DensityReachableSet.step)
  moreover have "0 \<in> DensityReachableSet ?X 0 2" by (rule DensityReachableSet.seed)
  moreover note \<open>1 \<in> DensityReachableSet ?X 0 2\<close>
  moreover have "\<And>i. i \<in> DensityReachableSet ?X 0 2 \<Longrightarrow> i \<in> {0, 1, 2}"
    by (drule DensityReachableSet_indices) auto
  ultimately show "DensityReachableSet ?X 0 2 = {0, 1, 2}" by blast
qed

text \<open>
  C4: for every dataset the distance primitive accepts, every valid point index \<open>p\<close> and
  every \<open>epsilon > 0\<close>, the call returns a set, and that set contains \<open>p\<close>. The primitive
  accepts the dataset when it returns a matrix: \<open>N\<close> rows of \<open>N\<close> distances, the distance
  of \<open>p\<close> to itself being \<open>0\<close>.
\<close>

theorem result_contains_point:
  assumes "pairwise_distances X = Inr distances" and "square (length X) distances"
    and "0 \<le> p" and "p < int (length X)"
    and "distances ! nat p ! nat p = 0" and "0 < epsilon"
  shows "\<exists>s. compute_density_reachable_points pairwise_distances set_order X p epsilon
               = Some (Inr s) \<and> p \<in> s"
  using assms by (simp add: compute_density_reachable_points_in_range)

text \<open>The dataset of \<open>run_test\<close>, with the point \<open>(10, 0)\<close> and the radius \<open>2\<close>.\<close>

theorem result_contains_point_witness:
  "\<exists>s. compute_density_reachable_points euclidean_distances sorted_list_of_set
          [[0, 0], [0, 1], [1, 0], [10, 0], [11, 1], [9, 0]] 3 2 = Some (Inr s) \<and> 3 \<in> s"
proof -
  let ?X = "[[0, 0], [0, 1], [1, 0], [10, 0], [11, 1], [9, 0]] :: dataset"
  let ?d = "map (\<lambda>x. map (\<lambda>y. euclidean x y) ?X) ?X"
  have d: "euclidean_distances ?X = Inr ?d" by (rule euclidean_distances_accepts) simp_all
  have "?d ! nat 3 ! nat 3 = 0" by (rule euclidean_distances_diagonal [OF d]) simp
  with d euclidean_distances_square [OF d] show ?thesis
    by (intro result_contains_point [where distances = ?d]) simp_all
qed

text \<open>
  C5: two calls with the same dataset, point index and maximum distance return the same
  result. The model is a function of its arguments with no state besides the two local
  sets of the loop; besides the primitive, the only thing a run can vary is the order in
  which the loop enumerates \<open>density_reachable\<close>, and the result does not depend on it.
\<close>

theorem result_independent_of_order:
  "compute_density_reachable_points pairwise_distances set_order X p r =
     compute_density_reachable_points pairwise_distances set_order' X p r"
  by (simp add: compute_density_reachable_points_eq)

theorem result_independent_of_order_witness:
  "compute_density_reachable_points euclidean_distances sorted_list_of_set
     [[0, 0], [2, 0], [4, 0]] 1 2 =
   compute_density_reachable_points euclidean_distances (\<lambda>s. rev (sorted_list_of_set s))
     [[0, 0], [2, 0], [4, 0]] 1 2"
  by (rule result_independent_of_order)

text \<open>
  C6: for every dataset the distance primitive accepts, every valid point index \<open>p\<close> and
  every radius \<open>r\<close> (in particular every \<open>r \<ge> 0\<close>), the call returns exactly the direct
  neighborhood \<open>{i. distances[p, i] \<le> r}\<close>, where \<open>distances\<close> is the matrix of \<open>N\<close> rows of
  \<open>N\<close> entries the primitive returned: \<open>compute_neighbors\<close> gives the same answer for every
  \<open>element_index\<close>, the neighbors of \<open>point_index\<close>, so the loop adds nothing to the first
  neighborhood.
\<close>

theorem result_is_direct_neighborhood:
  assumes "pairwise_distances X = Inr distances" and "square (length X) distances"
    and "0 \<le> p" and "p < int (length X)"
  shows "compute_density_reachable_points pairwise_distances set_order X p r =
           Some (Inr {i. 0 \<le> i \<and> i < int (length X) \<and> distances ! nat p ! nat i \<le> r})
         \<and> compute_neighbors (length X) distances p r element_index =
             compute_neighbors (length X) distances p r p"
  using compute_density_reachable_points_in_range
      [where primitive = pairwise_distances, OF assms]
    compute_neighbors_ignores_element_index by simp

text \<open>The call of \<open>run_test\<close>: point \<open>0\<close> of its six points, radius \<open>2\<close>.\<close>

theorem result_is_direct_neighborhood_witness:
  "compute_density_reachable_points euclidean_distances sorted_list_of_set
     [[0, 0], [0, 1], [1, 0], [10, 0], [11, 1], [9, 0]] 0 2 = Some (Inr {0, 1, 2})"
proof -
  let ?X = "[[0, 0], [0, 1], [1, 0], [10, 0], [11, 1], [9, 0]] :: dataset"
  let ?d = "map (\<lambda>x. map (\<lambda>y. euclidean x y) ?X) ?X"
  have d: "euclidean_distances ?X = Inr ?d" by (rule euclidean_distances_accepts) simp_all
  have "{i. 0 \<le> i \<and> i < int (length ?X) \<and> ?d ! nat 0 ! nat i \<le> 2}
      = set (filter (\<lambda>i. ?d ! nat 0 ! nat i \<le> 2) (map int [0..<length ?X]))"
    by (simp only: set_filter_range)
  also have "\<dots> = {0, 1, 2}"
    by (simp add: euclidean_def sqrt_le_iff_square upt_rec)
  finally show ?thesis
    using result_is_direct_neighborhood
      [where pairwise_distances = euclidean_distances and set_order = sorted_list_of_set
         and r = 2, OF d euclidean_distances_square [OF d], of 0]
    by simp
qed

text \<open>
  C7: for every dataset, point index and radius the loop terminates. It does so from
  every state \<open>(points_already_visited, density_reachable)\<close> and over every matrix: an
  iteration that does not end the loop adds to \<open>density_reachable\<close> an index below
  \<open>element_count\<close> that was not in it. Hence the function returns (a set or an exception),
  whatever the primitive.
\<close>

theorem loop_terminates:
  "(\<exists>res. explore set_order (compute_neighbors element_count distances p r)
            visited reachable = Some res)
   \<and> (\<exists>res. compute_density_reachable_points pairwise_distances set_order X p r = Some res)"
proof
  show "\<exists>res. explore set_order (compute_neighbors element_count distances p r)
            visited reachable = Some res"
    by (rule explore_terminates [where B = "int ` {0..<element_count}"])
       (auto dest: compute_neighbors_bound)
  show "\<exists>res. compute_density_reachable_points pairwise_distances set_order X p r = Some res"
    by (simp add: compute_density_reachable_points_eq split: sum.split)
qed

theorem loop_terminates_witness:
  "(\<exists>res. explore sorted_list_of_set
            (compute_neighbors 3 [[0, 2, 4], [2, 0, 2], [4, 2, 0]] 0 2) {} {0, 1} = Some res)
   \<and> (\<exists>res. compute_density_reachable_points euclidean_distances sorted_list_of_set
               [[0, 0], [2, 0], [4, 0]] 0 2 = Some res)"
  by (rule loop_terminates)

subsection \<open>\<open>cdbscan\<close>\<close>

text \<open>
  C2: for every dataset and every combination of \<open>epsilon\<close>, \<open>minpts\<close>, \<open>mustlink\<close> and
  \<open>cannotlink\<close>, \<open>cdbscan\<close> returns \<open>None\<close>: it raises nothing, produces no label sequence,
  and its result does not depend on any argument.
\<close>

theorem cdbscan_returns_None:
  "cdbscan dataset epsilon minpts mustlink cannotlink = Inr PyNone
   \<and> (\<forall>labels. cdbscan dataset epsilon minpts mustlink cannotlink \<noteq> Inr (Labels labels))
   \<and> cdbscan dataset epsilon minpts mustlink cannotlink
       = cdbscan dataset' epsilon' minpts' mustlink' cannotlink'"
  by (simp add: cdbscan_def)

text \<open>
  C3: for \<open>N\<close> points and valid parameters \<open>cdbscan\<close> returns a sequence of exactly \<open>N\<close>
  labels. On the input of \<open>test_easy_clusters_no_constraints\<close> (six points, \<open>epsilon = 5\<close>,
  \<open>minpts = 2\<close>, no constraints) the code returns \<open>None\<close>, not the six labels the test
  compares with \<open>[0, 1, 0, 0, 1, 1]\<close>.
\<close>

theorem cdbscan_no_labels:
  "cdbscan [[1, 1], [52, 3], [1, 2], [2, 3], [50, 4], [51, 2]] 5 2 None None = Inr PyNone
   \<and> cdbscan [[1, 1], [52, 3], [1, 2], [2, 3], [50, 4], [51, 2]] 5 2 None None
       \<noteq> Inr (Labels [0, 1, 0, 0, 1, 1])"
  by (simp add: cdbscan_def)

text \<open>
  C8: in a successful run the two points of every must-link pair receive the same
  non-negative label. On the input of \<open>test_mustlink_merging\<close> (must-link pair \<open>(0, 1)\<close>) the
  run succeeds and returns \<open>None\<close>: the points \<open>0\<close> and \<open>1\<close> receive no label at all, where
  the test expects \<open>[0, 0, 0, 0, 0, 0]\<close>.
\<close>

theorem cdbscan_mustlink_no_labels:
  "cdbscan [[1, 1], [52, 3], [1, 2], [50, 4], [2, 3], [51, 2]] 5 2 (Some {(0, 1)}) None
     = Inr PyNone
   \<and> cdbscan [[1, 1], [52, 3], [1, 2], [50, 4], [2, 3], [51, 2]] 5 2 (Some {(0, 1)}) None
       \<noteq> Inr (Labels [0, 0, 0, 0, 0, 0])"
  by (simp add: cdbscan_def)

text \<open>
  C9: a call with \<open>epsilon \<le> 0\<close> or \<open>minpts < 1\<close> fails with an \<open>InvalidParameter\<close> error.
  The code validates no parameter: the call with \<open>epsilon = -1\<close> raises nothing.
\<close>

theorem cdbscan_invalid_parameter_counterexample:
  "\<not> isl (cdbscan [[1, 1], [52, 3]] (- 1) 5 None None)"
  by (simp add: cdbscan_def)

text \<open>
  C9, amended: a call with \<open>epsilon \<le> 0\<close> or \<open>minpts < 1\<close> raises no error.
\<close>

theorem cdbscan_invalid_parameter_no_error:
  "epsilon \<le> 0 \<or> minpts < 1 \<Longrightarrow> \<not> isl (cdbscan dataset epsilon minpts mustlink cannotlink)"
  by (simp add: cdbscan_def)

theorem cdbscan_invalid_parameter_no_error_witness:
  "((1 / 100 :: real) \<le> 0 \<or> (0::int) < 1)
   \<and> \<not> isl (cdbscan [[1, 1], [52, 3]] (1 / 100) 0 (Some {(0, 1)}) None)"
  using cdbscan_invalid_parameter_no_error [of "1 / 100" 0 "[[1, 1], [52, 3]]" "Some {(0, 1)}" None]
  by simp

text \<open>
  C10: on an empty dataset, with valid parameters, \<open>cdbscan\<close> returns an empty label
  sequence and raises no error. With the default parameters (\<open>epsilon = 0.01\<close>,
  \<open>minpts = 5\<close>) the code raises no error, and returns \<open>None\<close>, not the empty sequence.
\<close>

theorem cdbscan_empty_dataset:
  "cdbscan [] (1 / 100) 5 None None = Inr PyNone
   \<and> cdbscan [] (1 / 100) 5 None None \<noteq> Inr (Labels [])"
  by (simp add: cdbscan_def)

end
